theory Spec2Isabelle
  imports Main "HOL-Library.Word"
begin

section \<open>The rpclib client engine (src/lib/rpc/client.cc)\<close>

text \<open>
  The development embeds \<^verbatim>\<open>rpc::client::impl\<close> and the member functions of
  \<^verbatim>\<open>rpc::client\<close> that act on it. All handlers run on the single thread that calls
  \<^verbatim>\<open>io_.run()\<close>, one after the other, so the engine is a sequential machine over one
  state record: a handler is a function from the state to the state it leaves. A handler
  that lets a C++ exception escape returns that exception next to the state it leaves
  behind (\<open>Some x\<close>); \<open>None\<close> is a normal return.

  Conventions: \<^verbatim>\<open>int\<close> is 32 bits wide and \<^verbatim>\<open>std::atomic<int>\<close> wraps in two's
  complement; \<^verbatim>\<open>uint32_t\<close>, \<^verbatim>\<open>uint16_t\<close> and \<^verbatim>\<open>int64_t\<close> are words of their width.
  The members of the source end in an underscore (\<^verbatim>\<open>call_idx_\<close>); the record fields
  carry the same names without it.
\<close>

subsection \<open>Data\<close>

text \<open>
  Modelled from the spec: \<^verbatim>\<open>rpc::connection_state\<close>, declared in rpc/client.h, which
  is not among the sources. The spec gives "one of Initial | Connected | Disconnected";
  client.cc uses these three and names a fourth, \<^verbatim>\<open>connection_state::reset\<close>, in the
  comment of its connection-reset branch.
\<close>

datatype connection_state = initial | connected | disconnected | reset

text \<open>A msgpack object handle and an outgoing buffer are opaque byte strings here.\<close>

type_synonym object_handle = string
type_synonym sbuffer = string

text \<open>
  Modelled from the spec: the exception classes of rpc/rpc_error.h, which is not among
  the sources, as the values client.cc constructs them from. \<^verbatim>\<open>rpc::rpc_error\<close> is
  built from a message, the function name and the error object of the frame ("an error
  carries the originating method name plus whatever error payload the frame carried");
  \<^verbatim>\<open>rpc::timeout\<close> is built from a message. \<open>Future_error\<close> is the
  \<^verbatim>\<open>std::future_error\<close> that the standard library raises from a promise, and
  \<open>Empty_optional\<close> marks the dereference of an empty \<^verbatim>\<open>nonstd::optional\<close>.
\<close>

datatype future_errc = broken_promise | promise_already_satisfied

datatype exn =
    Rpc_error string string object_handle
  | Rpc_timeout string
  | Future_error future_errc
  | Empty_optional

text \<open>
  The shared state behind a \<^verbatim>\<open>std::promise\<close> and its \<^verbatim>\<open>std::future\<close>: not ready, or
  ready with a value, or ready with an exception. The shared states live in a store
  indexed by address; a promise object is the address of its shared state, so that the
  state outlives the table entry that held the promise (the caller's future still
  reads it).
\<close>

datatype 'a shared_state = Unset | Value 'a | Exception exn

type_synonym 'a store = "nat \<Rightarrow> 'a shared_state"

text \<open>
  Modelled from the spec: the decoded frame of rpc/detail/response.h, which is not part of
  the sources at hand. A frame "carries an id, and either a success value or an error
  indicator"; \<open>get_error\<close> is \<open>None\<close> where the C++ accessor returns a null pointer.
\<close>

record response =
  get_id :: "32 word"
  get_error :: "object_handle option"
  get_result :: object_handle

text \<open>
  The closures handed to \<^verbatim>\<open>strand_.post\<close>: the registration of \<^verbatim>\<open>client::post\<close>
  (lines 236-240), the plain write of the one-argument \<^verbatim>\<open>client::post\<close> (lines 244-247)
  and the removal posted by the read handler (line 99).
\<close>

datatype task =
    Register "32 word" string nat sbuffer
  | Write_buffer sbuffer
  | Erase "32 word"

datatype error_code = no_error | eof | connection_reset | other_error nat

datatype cv_status = cv_no_timeout | cv_timeout

text \<open>The two ways a thread blocks on \<^verbatim>\<open>conn_finished_\<close>: \<^verbatim>\<open>wait\<close> and \<^verbatim>\<open>wait_for\<close>.\<close>

datatype cv_wait = Wait | Wait_for "64 word"

text \<open>
  \<^verbatim>\<open>client::impl\<close>. The first eight fields are members of the struct (\<open>callback\<close> says
  whether a state handler is registered). The others stand for the objects the struct
  owns or talks to: the handlers queued on the strand, the shared states of the response
  promises and of the connection promises with the next unused address, the threads
  blocked on the condition variable \<^verbatim>\<open>conn_finished_\<close>, the number of
  \<^verbatim>\<open>async_read_some\<close> operations issued so far, the buffers handed to the writer, and the
  calls the state handler has received.
\<close>

record impl =
  call_idx :: "32 word"
  ongoing_calls :: "32 word \<rightharpoonup> string \<times> nat"
  addr :: string
  port :: "16 word"
  is_connected :: bool
  state :: connection_state
  timeout :: "64 word option"
  callback :: bool
  strand :: "task list"
  rsp_states :: "object_handle store"
  conn_states :: "connection_state store"
  next_state :: nat
  conn_finished :: "(nat \<times> cv_wait) list"
  reads_issued :: nat
  written :: "sbuffer list"
  transitions :: "(connection_state \<times> connection_state) list"

subsection \<open>Promises\<close>

text \<open>
  \<^verbatim>\<open>std::promise::set_value\<close> and \<^verbatim>\<open>set_exception\<close> store into a shared state that is
  not ready and raise \<^verbatim>\<open>future_error(promise_already_satisfied)\<close> otherwise, leaving the
  state as it was. Destroying a promise whose shared state is not ready stores
  \<^verbatim>\<open>future_error(broken_promise)\<close> there (\<open>abandon\<close>).
\<close>

definition set_value :: "nat \<Rightarrow> 'a \<Rightarrow> 'a store \<Rightarrow> exn option \<times> 'a store" where
  "set_value p v st =
     (if st p = Unset then (None, st(p := Value v))
      else (Some (Future_error promise_already_satisfied), st))"

definition set_exception :: "nat \<Rightarrow> exn \<Rightarrow> 'a store \<Rightarrow> exn option \<times> 'a store" where
  "set_exception p x st =
     (if st p = Unset then (None, st(p := Exception x))
      else (Some (Future_error promise_already_satisfied), st))"

definition abandon :: "nat \<Rightarrow> 'a store \<Rightarrow> 'a store" where
  "abandon p st = (if st p = Unset then st(p := Exception (Future_error broken_promise)) else st)"

text \<open>
  Modelled from the spec: the caller's side of a call, in rpc/client.h, which is not among
  the sources. It creates the "one-shot result slot" of the pending call, the promise
  that \<^verbatim>\<open>client::post\<close> receives: a new shared state at the next unused address.
\<close>

definition new_promise :: "impl \<Rightarrow> nat \<times> impl" where
  "new_promise s =
     (let p = next_state s
      in (p, s\<lparr>rsp_states := (rsp_states s)(p := Unset), next_state := Suc p\<rparr>))"

subsection \<open>Construction, state changes, small accessors\<close>

definition impl_init :: "string \<Rightarrow> 16 word \<Rightarrow> impl" where
  "impl_init a p =
     \<lparr>call_idx = 0, ongoing_calls = Map.empty, addr = a, port = p, is_connected = False,
      state = initial, timeout = None, callback = False, strand = [],
      rsp_states = (\<lambda>_. Unset), conn_states = (\<lambda>_. Unset), next_state = 0,
      conn_finished = [], reads_issued = 0, written = [], transitions = []\<rparr>"

definition set_state :: "connection_state \<Rightarrow> impl \<Rightarrow> impl" where
  "set_state new s =
     (let prev = state s; s1 = s\<lparr>state := new\<rparr>
      in if callback s1 then s1\<lparr>transitions := transitions s1 @ [(prev, state s1)]\<rparr> else s1)"

definition get_connection_state :: "impl \<Rightarrow> connection_state" where
  "get_connection_state s = state s"

definition get_timeout :: "impl \<Rightarrow> 64 word option" where
  "get_timeout s = timeout s"

definition set_timeout :: "64 word \<Rightarrow> impl \<Rightarrow> impl" where
  "set_timeout v s = s\<lparr>timeout := Some v\<rparr>"

definition clear_timeout :: "impl \<Rightarrow> impl" where
  "clear_timeout s = s\<lparr>timeout := None\<rparr>"

definition set_state_handler :: "impl \<Rightarrow> impl" where
  "set_state_handler s = s\<lparr>callback := True\<rparr>"

text \<open>
  \<^verbatim>\<open>impl::write\<close> (\<open>writer_write\<close> here) hands the buffer to the writer.
  Modelled from the spec: \<^verbatim>\<open>async_writer::write\<close> of rpc/detail/async_writer.h, which
  is not among the sources; it "appends to the OutboundQueue".
  \<^verbatim>\<open>strand_.post\<close> appends a closure to the queue of the strand.
\<close>

definition writer_write :: "sbuffer \<Rightarrow> impl \<Rightarrow> impl" where
  "writer_write item s = s\<lparr>written := written s @ [item]\<rparr>"

definition strand_post :: "task \<Rightarrow> impl \<Rightarrow> impl" where
  "strand_post t s = s\<lparr>strand := strand s @ [t]\<rparr>"

subsection \<open>Call ids\<close>

text \<open>
  \<^verbatim>\<open>client::get_next_call_idx\<close>: increment the counter, then read it. The returned
  \<^verbatim>\<open>int\<close> is the word read as a signed number (\<open>sint\<close>).
\<close>

definition get_next_call_idx :: "impl \<Rightarrow> 32 word \<times> impl" where
  "get_next_call_idx s = (let s1 = s\<lparr>call_idx := call_idx s + 1\<rparr> in (call_idx s1, s1))"

text \<open>The ids returned by \<open>n\<close> calls in a row, oldest first.\<close>

fun allocate :: "nat \<Rightarrow> impl \<Rightarrow> 32 word list \<times> impl" where
  "allocate 0 s = ([], s)"
| "allocate (Suc n) s =
     (let (i, s1) = get_next_call_idx s; (js, s2) = allocate n s1 in (i # js, s2))"

subsection \<open>The correlation table\<close>

text \<open>
  \<^verbatim>\<open>ongoing_calls_[id]\<close>: \<^verbatim>\<open>operator[]\<close> of \<^verbatim>\<open>std::unordered_map\<close> returns the entry
  found, and where there is none it first inserts a value-initialised one: the empty
  method name and a default-constructed promise, which owns a new shared state.
\<close>

definition index_call :: "32 word \<Rightarrow> impl \<Rightarrow> (string \<times> nat) \<times> impl" where
  "index_call i s =
     (case ongoing_calls s i of
        Some c \<Rightarrow> (c, s)
      | None \<Rightarrow>
          (let p = next_state s
           in (([], p),
               s\<lparr>ongoing_calls := (ongoing_calls s)(i \<mapsto> ([], p)),
                 rsp_states := (rsp_states s)(p := Unset),
                 next_state := Suc p\<rparr>)))"

text \<open>
  \<^verbatim>\<open>ongoing_calls_.insert(make_pair(idx, make_pair(func_name, std::move(*p))))\<close>:
  \<^verbatim>\<open>insert\<close> does nothing to the table when the key is present. The promise has been moved
  out of \<^verbatim>\<open>*p\<close> into the temporary pair either way, so when it is not stored it is
  destroyed with the temporary.
\<close>

definition insert_call :: "32 word \<Rightarrow> string \<times> nat \<Rightarrow> impl \<Rightarrow> impl" where
  "insert_call idx c s =
     (case ongoing_calls s idx of
        None \<Rightarrow> s\<lparr>ongoing_calls := (ongoing_calls s)(idx \<mapsto> c)\<rparr>
      | Some _ \<Rightarrow> s\<lparr>rsp_states := abandon (snd c) (rsp_states s)\<rparr>)"

text \<open>\<^verbatim>\<open>ongoing_calls_.erase(id)\<close> destroys the entry and with it the promise it holds.\<close>

definition erase_call :: "32 word \<Rightarrow> impl \<Rightarrow> impl" where
  "erase_call i s =
     (case ongoing_calls s i of
        None \<Rightarrow> s
      | Some c \<Rightarrow> s\<lparr>ongoing_calls := (ongoing_calls s)(i := None),
                    rsp_states := abandon (snd c) (rsp_states s)\<rparr>)"

text \<open>
  \<^verbatim>\<open>client::post\<close>, both overloads: the work is posted to the strand. The \<^verbatim>\<open>int\<close>
  id becomes the \<^verbatim>\<open>uint32_t\<close> key of the table with the same 32 bits.
\<close>

definition post :: "sbuffer \<Rightarrow> 32 word \<Rightarrow> string \<Rightarrow> nat \<Rightarrow> impl \<Rightarrow> impl" where
  "post buffer idx func_name p s = strand_post (Register idx func_name p buffer) s"

definition post_buffer :: "sbuffer \<Rightarrow> impl \<Rightarrow> impl" where
  "post_buffer buffer s = strand_post (Write_buffer buffer) s"

fun run_task :: "task \<Rightarrow> impl \<Rightarrow> impl" where
  "run_task (Register idx func_name p buffer) s = writer_write buffer (insert_call idx (func_name, p) s)"
| "run_task (Write_buffer buffer) s = writer_write buffer s"
| "run_task (Erase i) s = erase_call i s"

text \<open>The io thread runs the oldest closure queued on the strand.\<close>

definition strand_run :: "impl \<Rightarrow> impl" where
  "strand_run s = (case strand s of [] \<Rightarrow> s | t # ts \<Rightarrow> run_task t (s\<lparr>strand := ts\<rparr>))"

subsection \<open>The read loop\<close>

definition do_read :: "impl \<Rightarrow> impl" where
  "do_read s = s\<lparr>reads_issued := Suc (reads_issued s)\<rparr>"

text \<open>
  The body of the \<^verbatim>\<open>while (pac_.next(result))\<close> loop (lines 86-99) for one decoded
  frame. The \<^verbatim>\<open>try\<close> block either throws \<^verbatim>\<open>rpc_error\<close> or calls \<^verbatim>\<open>set_value\<close>, which
  may throw; \<^verbatim>\<open>catch (...)\<close> hands whatever was thrown to \<^verbatim>\<open>set_exception\<close>, and what
  that call throws leaves the handler. The removal is posted only when the body ends
  normally.
\<close>

definition dispatch :: "response \<Rightarrow> impl \<Rightarrow> exn option \<times> impl" where
  "dispatch r s =
     (let i = get_id r;
          (current_call, s1) = index_call i s;
          (thrown, st) =
            (case get_error r of
               Some e \<Rightarrow>
                 (Some (Rpc_error ''rpc::rpc_error during call'' (fst current_call) e),
                  rsp_states s1)
             | None \<Rightarrow> set_value (snd current_call) (get_result r) (rsp_states s1))
      in case thrown of
           None \<Rightarrow> (None, strand_post (Erase i) (s1\<lparr>rsp_states := st\<rparr>))
         | Some x \<Rightarrow>
             (case set_exception (snd current_call) x st of
                (None, st') \<Rightarrow> (None, strand_post (Erase i) (s1\<lparr>rsp_states := st'\<rparr>))
              | (Some y, st') \<Rightarrow> (Some y, s1\<lparr>rsp_states := st'\<rparr>)))"

fun dispatch_all :: "response list \<Rightarrow> impl \<Rightarrow> exn option \<times> impl" where
  "dispatch_all [] s = (None, s)"
| "dispatch_all (r # rs) s =
     (case dispatch r s of
        (None, s1) \<Rightarrow> dispatch_all rs s1
      | (Some x, s1) \<Rightarrow> (Some x, s1))"

text \<open>
  The completion handler of \<^verbatim>\<open>async_read_some\<close> (lines 79-125). The unpacker is an
  external collaborator: \<open>rs\<close> are the frames it yields from the chunk just read, and its
  buffer management is left out.
\<close>

definition on_read :: "error_code \<Rightarrow> response list \<Rightarrow> impl \<Rightarrow> exn option \<times> impl" where
  "on_read ec rs s =
     (if ec = no_error then
        (case dispatch_all rs s of
           (None, s1) \<Rightarrow> (None, do_read s1)
         | (Some x, s1) \<Rightarrow> (Some x, s1))
      else if ec = eof then (None, set_state disconnected s)
      else if ec = connection_reset then (None, set_state disconnected s)
      else (None, s))"

subsection \<open>Connecting\<close>

text \<open>
  \<^verbatim>\<open>do_connect\<close> creates the connection promise and starts \<^verbatim>\<open>async_connect\<close>; the
  address of the promise is what the completion handler captures.
\<close>

definition do_connect :: "impl \<Rightarrow> nat \<times> impl" where
  "do_connect s =
     (let p = next_state s
      in (p, s\<lparr>conn_states := (conn_states s)(p := Unset), next_state := Suc p\<rparr>))"

definition notify_all :: "impl \<Rightarrow> impl" where
  "notify_all s = s\<lparr>conn_finished := []\<rparr>"

text \<open>The completion handler of \<^verbatim>\<open>async_connect\<close> (lines 54-68).\<close>

definition on_connect :: "nat \<Rightarrow> error_code \<Rightarrow> impl \<Rightarrow> exn option \<times> impl" where
  "on_connect conn_promise ec s =
     (if ec = no_error then
        (let s1 = set_state connected (s\<lparr>is_connected := True\<rparr>)
         in case set_value conn_promise connected (conn_states s1) of
              (None, st) \<Rightarrow> (None, do_read (notify_all (s1\<lparr>conn_states := st\<rparr>)))
            | (Some x, st) \<Rightarrow> (Some x, s1\<lparr>conn_states := st\<rparr>))
      else
        (let s1 = set_state disconnected s
         in case set_value conn_promise disconnected (conn_states s1) of
              (thrown, st) \<Rightarrow> (thrown, s1\<lparr>conn_states := st\<rparr>)))"

text \<open>\<^verbatim>\<open>client::client\<close>: build the engine and start the first connection attempt.\<close>

definition client :: "string \<Rightarrow> 16 word \<Rightarrow> impl" where
  "client a p = snd (do_connect (impl_init a p))"

subsection \<open>Waiting for the connection\<close>

text \<open>
  \<^verbatim>\<open>RPCLIB_FMT::format\<close> with \<^verbatim>\<open>{}\<close> prints an integer in decimal and a string as it
  is.
\<close>

fun to_decimal :: "nat \<Rightarrow> string" where
  "to_decimal n =
     (if n < 10 then [''0123456789'' ! n]
      else to_decimal (n div 10) @ [''0123456789'' ! (n mod 10)])"

declare to_decimal.simps [simp del]

definition int_to_decimal :: "int \<Rightarrow> string" where
  "int_to_decimal i = (if i < 0 then CHR ''-'' # to_decimal (nat (- i)) else to_decimal (nat i))"

definition timeout_message :: "64 word \<Rightarrow> string \<Rightarrow> 16 word \<Rightarrow> string" where
  "timeout_message t a p =
     ''Timeout of '' @ int_to_decimal (sint t) @ ''ms while connecting to '' @ a @ '':''
       @ to_decimal (unat p)"

text \<open>
  \<^verbatim>\<open>wait_conn\<close> (lines 156-173) blocks in the middle, so it is two functions: the part up
  to the wait, by thread \<open>tid\<close>, which answers \<open>None\<close> when the function returns without
  waiting and otherwise the wait the thread is now blocked in; and the part after the
  wait has returned with \<open>result\<close>. The error message reads \<^verbatim>\<open>timeout_\<close> again, through
  \<^verbatim>\<open>*get_timeout()\<close>.
\<close>

definition wait_conn :: "nat \<Rightarrow> impl \<Rightarrow> cv_wait option \<times> impl" where
  "wait_conn tid s =
     (if state s \<noteq> connected then
        (case timeout s of
           Some t \<Rightarrow> (Some (Wait_for t), s\<lparr>conn_finished := conn_finished s @ [(tid, Wait_for t)]\<rparr>)
         | None \<Rightarrow> (Some Wait, s\<lparr>conn_finished := conn_finished s @ [(tid, Wait)]\<rparr>))
      else (None, s))"

definition wait_conn_wake :: "nat \<Rightarrow> cv_wait \<Rightarrow> cv_status \<Rightarrow> impl \<Rightarrow> exn option \<times> impl" where
  "wait_conn_wake tid w result s =
     (let s1 = s\<lparr>conn_finished := removeAll (tid, w) (conn_finished s)\<rparr>
      in case w of
           Wait \<Rightarrow> (None, s1)
         | Wait_for t \<Rightarrow>
             (if result = cv_timeout then
                (case get_timeout s1 of
                   Some t' \<Rightarrow> (Some (Rpc_timeout (timeout_message t' (addr s1) (port s1))), s1)
                 | None \<Rightarrow> (Some Empty_optional, s1))
              else (None, s1)))"

subsection \<open>Runs of the engine\<close>

text \<open>
  What can happen to the engine, one event at a time: a caller creates a promise and
  posts a call under an id; a caller posts a plain buffer; the io thread runs the next
  closure of the strand; a read completes with an error code and the frames decoded from
  it; a connection attempt is started, or completes. A run stops at the first event whose
  handler lets an exception escape.
\<close>

datatype event =
    Call "32 word" string sbuffer
  | Post_buffer sbuffer
  | Strand_run
  | Read_done error_code "response list"
  | Connect
  | Connect_done nat error_code

fun step :: "event \<Rightarrow> impl \<Rightarrow> exn option \<times> impl" where
  "step (Call idx func_name buffer) s =
     (let (p, s1) = new_promise s in (None, post buffer idx func_name p s1))"
| "step (Post_buffer buffer) s = (None, post_buffer buffer s)"
| "step Strand_run s = (None, strand_run s)"
| "step (Read_done ec rs) s = on_read ec rs s"
| "step Connect s = (None, snd (do_connect s))"
| "step (Connect_done p ec) s = on_connect p ec s"

fun run :: "event list \<Rightarrow> impl \<Rightarrow> exn option \<times> impl" where
  "run [] s = (None, s)"
| "run (e # es) s =
     (case step e s of
        (None, s1) \<Rightarrow> run es s1
      | (Some x, s1) \<Rightarrow> (Some x, s1))"

text \<open>
  \<open>keeps_resolved s s'\<close>: going from \<open>s\<close> to \<open>s'\<close> no address is given back, and every
  shared state that exists in \<open>s\<close> and is ready there is the same in \<open>s'\<close>.
\<close>

definition keeps_resolved :: "impl \<Rightarrow> impl \<Rightarrow> bool" where
  "keeps_resolved s s' \<longleftrightarrow>
     next_state s \<le> next_state s' \<and>
     (\<forall>q < next_state s. rsp_states s q \<noteq> Unset \<longrightarrow> rsp_states s' q = rsp_states s q)"

text \<open>
  \<open>allocated s\<close>: every promise held by the table, and every promise waiting on the
  strand to be registered, lies below the next unused address.
\<close>

definition allocated :: "impl \<Rightarrow> bool" where
  "allocated s \<longleftrightarrow>
     (\<forall>i c. ongoing_calls s i = Some c \<longrightarrow> snd c < next_state s) \<and>
     (\<forall>i n p b. Register i n p b \<in> set (strand s) \<longrightarrow> p < next_state s)"

subsection \<open>Sample states and frames\<close>

text \<open>
  A client for 127.0.0.1:8080 whose first connection attempt has succeeded
  (\<open>connected_client\<close>); the same after a caller has posted the call \<open>echo\<close> under id 1
  and the strand has registered it (\<open>echo_client\<close>): the promise of the connection is at
  address 0, the promise of the call at address 1. Then two frames for id 1, one with a
  result and one with an error, and a frame for id 7, which nobody has issued.
\<close>

definition connected_client :: impl where
  "connected_client = snd (on_connect 0 no_error (client ''127.0.0.1'' 8080))"

definition echo_client :: impl where
  "echo_client = snd (run [Call 1 ''echo'' ''request'', Strand_run] connected_client)"

definition echo_reply :: response where
  "echo_reply = \<lparr>get_id = 1, get_error = None, get_result = ''hi''\<rparr>"

definition echo_failure :: response where
  "echo_failure = \<lparr>get_id = 1, get_error = Some ''no such function'', get_result = []\<rparr>"

definition stray_reply :: response where
  "stray_reply = \<lparr>get_id = 7, get_error = None, get_result = ''x''\<rparr>"

text \<open>\<open>echo_client\<close> after a second caller has created its promise, at address 2.\<close>

definition second_caller :: impl where
  "second_caller = snd (new_promise echo_client)"

section \<open>Properties\<close>

subsection \<open>Call ids\<close>

lemma allocate_ids:
  "fst (allocate n s) = map (\<lambda>k. call_idx s + of_nat (Suc k)) [0..<n]"
proof (induction n arbitrary: s)
  case 0
  show ?case by simp
next
  case (Suc n)
  have "fst (allocate (Suc n) s)
      = (call_idx s + 1) # fst (allocate n (s\<lparr>call_idx := call_idx s + 1\<rparr>))"
    by (simp add: get_next_call_idx_def Let_def split: prod.splits)
  also have "\<dots> = (call_idx s + 1) # map (\<lambda>k. call_idx s + of_nat (Suc (Suc k))) [0..<n]"
    by (simp add: Suc.IH add.assoc)
  also have "\<dots> = map (\<lambda>k. call_idx s + of_nat (Suc k)) (0 # map Suc [0..<n])"
    by (simp add: comp_def)
  also have "0 # map Suc [0..<n] = [0..<Suc n]"
    by (simp add: map_Suc_upt upt_conv_Cons del: upt_Suc)
  finally show ?case .
qed

lemma client_call_idx: "call_idx (client a p) = 0"
  by (simp add: client_def do_connect_def impl_init_def Let_def)

lemma allocate_length: "length (fst (allocate n s)) = n"
  by (simp add: allocate_ids)

lemma allocate_nth:
  "k < n \<Longrightarrow> fst (allocate n s) ! k = call_idx s + of_nat (Suc k)"
  by (simp add: allocate_ids del: of_nat_Suc)

lemma sint_small: "k < 2147483648 \<Longrightarrow> sint (of_nat k :: 32 word) = int k"
proof -
  assume k: "k < 2147483648"
  have "sint (of_nat k :: 32 word) = signed_take_bit 31 (int k)"
    by (simp add: signed_of_nat)
  also have "\<dots> = int k"
    by (rule signed_take_bit_int_eq_self) (use k in simp_all)
  finally show ?thesis .
qed

text \<open>
  C3, as amended. On a freshly constructed client, a sequence of at most \<open>2^31 - 1\<close>
  calls of \<^verbatim>\<open>get_next_call_idx\<close> returns the ids \<open>1, 2, \<dots>, n\<close> in this order: the
  first id is 1 and every later id is strictly greater than all ids before it.
\<close>

theorem call_ids_increase:
  "n \<le> 2147483647 \<Longrightarrow>
     map sint (fst (allocate n (client a p))) = map int [1..<Suc n] \<and>
     sorted_wrt (<) (map sint (fst (allocate n (client a p))))"
proof -
  assume n: "n \<le> 2147483647"
  have nth: "map sint (fst (allocate n (client a p))) ! k = int (Suc k)" if "k < n" for k
  proof -
    have "Suc k < 2147483648" using that n by simp
    then have "sint (of_nat (Suc k) :: 32 word) = int (Suc k)" by (rule sint_small)
    then show ?thesis using that
      by (simp add: allocate_length allocate_nth client_call_idx del: of_nat_Suc)
  qed
  have eq: "map sint (fst (allocate n (client a p))) = map int [1..<Suc n]"
  proof (rule nth_equalityI)
    show "length (map sint (fst (allocate n (client a p)))) = length (map int [1..<Suc n])"
      by (simp add: allocate_length)
    fix i
    assume "i < length (map sint (fst (allocate n (client a p))))"
    then have i: "i < n" by (simp add: allocate_length)
    then have "map int [1..<Suc n] ! i = int (Suc i)" by (simp del: upt_Suc)
    with nth [OF i] show "map sint (fst (allocate n (client a p))) ! i = map int [1..<Suc n] ! i"
      by simp
  qed
  have "sorted_wrt (<) (map int [1..<Suc n])"
    by (simp add: sorted_wrt_map del: upt_Suc)
  with eq show ?thesis by simp
qed

text \<open>Witness for C3: three allocations on a new client give 1, 2, 3.\<close>

theorem call_ids_increase_witness:
  "(3::nat) \<le> 2147483647 \<and> map sint (fst (allocate 3 (client ''127.0.0.1'' 8080))) = [1, 2, 3]"
  using call_ids_increase [of 3 "''127.0.0.1''" 8080] by (simp add: upt_rec)

text \<open>
  Counterexample to C3 as stated: of \<open>2^31\<close> allocations in a row the first returns 1
  and the last returns \<open>- 2^31\<close>, the counter having wrapped, which is not greater than
  the ids before it.
\<close>

theorem call_ids_wrap_counterexample:
  "sint (fst (allocate 2147483648 (client ''127.0.0.1'' 8080)) ! 0) = 1 \<and>
   sint (fst (allocate 2147483648 (client ''127.0.0.1'' 8080)) ! 2147483647) = - 2147483648"
proof -
  have a: "fst (allocate 2147483648 (client ''127.0.0.1'' 8080)) ! 0 = 1"
    using allocate_nth [of 0 2147483648 "client ''127.0.0.1'' 8080"]
    by (simp add: client_call_idx)
  have "fst (allocate 2147483648 (client ''127.0.0.1'' 8080)) ! 2147483647
      = (of_nat (Suc 2147483647) :: 32 word)"
    using allocate_nth [of 2147483647 2147483648 "client ''127.0.0.1'' 8080"]
    by (simp add: client_call_idx del: of_nat_Suc)
  also have "\<dots> = (2147483648 :: 32 word)" by simp
  finally have b:
    "fst (allocate 2147483648 (client ''127.0.0.1'' 8080)) ! 2147483647 = (2147483648 :: 32 word)" .
  show ?thesis by (simp add: a b)
qed

subsection \<open>The sample states\<close>

lemma client_fields:
  "conn_states (client a p) 0 = Unset"
  "reads_issued (client a p) = 0"
  "state (client a p) = initial"
  "timeout (client a p) = None"
  "conn_finished (client a p) = []"
  "addr (client a p) = a"
  "port (client a p) = p"
  by (simp_all add: client_def do_connect_def impl_init_def Let_def)

lemma connected_client_fields:
  "state connected_client = connected"
  "next_state connected_client = 1"
  "reads_issued connected_client = 1"
  "ongoing_calls connected_client = Map.empty"
  "strand connected_client = []"
  "conn_states connected_client 0 = Value connected"
  "timeout connected_client = None"
  "addr connected_client = ''127.0.0.1''"
  "port connected_client = 8080"
  "conn_finished connected_client = []"
  by (simp_all add: connected_client_def client_def do_connect_def impl_init_def on_connect_def
      set_state_def set_value_def notify_all_def do_read_def Let_def)

lemma echo_client_fields:
  "ongoing_calls echo_client = [1 \<mapsto> (''echo'', 1)]"
  "rsp_states echo_client 1 = Unset"
  "rsp_states echo_client (Suc 0) = Unset"
  "next_state echo_client = 2"
  "strand echo_client = []"
  "written echo_client = [''request'']"
  "reads_issued echo_client = 1"
  "state echo_client = connected"
  by (simp_all add: echo_client_def connected_client_def client_def do_connect_def impl_init_def
      on_connect_def set_state_def set_value_def notify_all_def do_read_def new_promise_def
      post_def strand_post_def strand_run_def insert_call_def writer_write_def Let_def)

lemma second_caller_fields:
  "ongoing_calls second_caller = [1 \<mapsto> (''echo'', 1)]"
  "next_state second_caller = 3"
  "rsp_states second_caller 2 = Unset"
  by (simp_all add: second_caller_def new_promise_def echo_client_fields Let_def)

subsection \<open>A completion that is ready stays as it is\<close>

lemma keeps_resolved_refl: "keeps_resolved s s"
  by (simp add: keeps_resolved_def)

lemma keeps_resolved_trans:
  "keeps_resolved s s1 \<Longrightarrow> keeps_resolved s1 s2 \<Longrightarrow> keeps_resolved s s2"
  unfolding keeps_resolved_def
  by (metis le_trans less_le_trans)

lemma keeps_resolved_dispatch: "keeps_resolved s (snd (dispatch r s))"
  by (auto simp: keeps_resolved_def dispatch_def index_call_def set_value_def set_exception_def
      strand_post_def Let_def split: option.splits prod.splits if_splits)

lemma keeps_resolved_dispatch_all: "keeps_resolved s (snd (dispatch_all rs s))"
proof (induction rs arbitrary: s)
  case Nil
  show ?case by (simp add: keeps_resolved_refl)
next
  case (Cons r rs)
  show ?case
  proof (cases "dispatch r s")
    case (Pair thrown s1)
    have k: "keeps_resolved s s1"
      using keeps_resolved_dispatch [of s r] Pair by simp
    show ?thesis
    proof (cases thrown)
      case None
      with Pair k Cons.IH [of s1] show ?thesis
        by (auto intro: keeps_resolved_trans)
    next
      case (Some x)
      with Pair k show ?thesis by simp
    qed
  qed
qed

lemma keeps_resolved_set_state: "keeps_resolved s (set_state c s)"
  by (simp add: keeps_resolved_def set_state_def Let_def)

lemma keeps_resolved_on_read: "keeps_resolved s (snd (on_read ec rs s))"
proof (cases "ec = no_error")
  case True
  have "keeps_resolved s1 (do_read s1)" for s1
    by (simp add: keeps_resolved_def do_read_def)
  with keeps_resolved_dispatch_all [of s rs] True show ?thesis
    by (auto simp: on_read_def split: prod.splits option.splits intro: keeps_resolved_trans)
next
  case False
  then show ?thesis
    by (simp add: on_read_def keeps_resolved_set_state keeps_resolved_refl)
qed

lemma keeps_resolved_run_task: "keeps_resolved s (run_task t s)"
  by (cases t)
    (auto simp: keeps_resolved_def writer_write_def insert_call_def erase_call_def abandon_def
      split: option.splits)

lemma keeps_resolved_strand_run: "keeps_resolved s (strand_run s)"
proof (cases "strand s")
  case Nil
  then show ?thesis by (simp add: strand_run_def keeps_resolved_refl)
next
  case (Cons t ts)
  have "keeps_resolved s (s\<lparr>strand := ts\<rparr>)" by (simp add: keeps_resolved_def)
  then show ?thesis
    using keeps_resolved_run_task [of "s\<lparr>strand := ts\<rparr>" t] Cons
    by (auto simp: strand_run_def intro: keeps_resolved_trans)
qed

lemma keeps_resolved_on_connect: "keeps_resolved s (snd (on_connect p ec s))"
  by (auto simp: keeps_resolved_def on_connect_def set_state_def do_read_def notify_all_def
      Let_def split: prod.splits option.splits)

lemma keeps_resolved_step: "keeps_resolved s (snd (step e s))"
proof (cases e)
  case (Call idx func_name buffer)
  then show ?thesis
    by (auto simp: keeps_resolved_def new_promise_def post_def strand_post_def Let_def)
next
  case (Post_buffer buffer)
  then show ?thesis by (simp add: keeps_resolved_def post_buffer_def strand_post_def)
next
  case Strand_run
  then show ?thesis by (simp add: keeps_resolved_strand_run)
next
  case (Read_done ec rs)
  then show ?thesis by (simp add: keeps_resolved_on_read)
next
  case Connect
  then show ?thesis by (simp add: keeps_resolved_def do_connect_def Let_def)
next
  case (Connect_done p ec)
  then show ?thesis by (simp add: keeps_resolved_on_connect)
qed

lemma keeps_resolved_run: "keeps_resolved s (snd (run es s))"
proof (induction es arbitrary: s)
  case Nil
  show ?case by (simp add: keeps_resolved_refl)
next
  case (Cons e es)
  show ?case
  proof (cases "step e s")
    case (Pair thrown s1)
    have k: "keeps_resolved s s1"
      using keeps_resolved_step [of s e] Pair by simp
    show ?thesis
    proof (cases thrown)
      case None
      with Pair k Cons.IH [of s1] show ?thesis
        by (auto intro: keeps_resolved_trans)
    next
      case (Some x)
      with Pair k show ?thesis by simp
    qed
  qed
qed

lemma resolved_after_run:
  "q < next_state s \<Longrightarrow> rsp_states s q \<noteq> Unset \<Longrightarrow>
     rsp_states (snd (run evs s)) q = rsp_states s q"
  using keeps_resolved_run [of s evs] by (simp add: keeps_resolved_def)

lemma resolved_after_dispatch:
  "q < next_state s \<Longrightarrow> rsp_states s q \<noteq> Unset \<Longrightarrow>
     rsp_states (snd (dispatch r s)) q = rsp_states s q"
  using keeps_resolved_dispatch [of s r] by (simp add: keeps_resolved_def)

subsection \<open>Promises in use are allocated\<close>

lemma allocated_client: "allocated (client a p)"
  by (simp add: allocated_def client_def do_connect_def impl_init_def Let_def)

lemma allocated_dispatch: "allocated s \<Longrightarrow> allocated (snd (dispatch r s))"
  by (auto simp: allocated_def dispatch_def index_call_def set_value_def set_exception_def
      strand_post_def Let_def less_Suc_eq split: option.splits prod.splits if_splits)

lemma allocated_dispatch_all: "allocated s \<Longrightarrow> allocated (snd (dispatch_all rs s))"
proof (induction rs arbitrary: s)
  case Nil
  then show ?case by simp
next
  case (Cons r rs)
  show ?case
  proof (cases "dispatch r s")
    case (Pair thrown s1)
    then have "allocated s1"
      using allocated_dispatch [OF Cons.prems, of r] by simp
    with Pair Cons.IH [of s1] show ?thesis
      by (cases thrown) simp_all
  qed
qed

lemma allocated_on_read: "allocated s \<Longrightarrow> allocated (snd (on_read ec rs s))"
proof -
  assume a: "allocated s"
  have r: "allocated (do_read s1)" if "allocated s1" for s1
    using that by (simp add: allocated_def do_read_def)
  have d: "allocated (set_state disconnected s)"
    using a by (simp add: allocated_def set_state_def Let_def)
  show ?thesis
  proof (cases "dispatch_all rs s")
    case (Pair thrown s1)
    then have "allocated s1"
      using allocated_dispatch_all [OF a, of rs] by simp
    with Pair a d r [of s1] show ?thesis
      by (cases thrown) (simp_all add: on_read_def)
  qed
qed

lemma allocated_run_task:
  "allocated s \<Longrightarrow> (\<And>i n p b. t = Register i n p b \<Longrightarrow> p < next_state s) \<Longrightarrow>
     allocated (run_task t s)"
  by (cases t)
    (auto simp: allocated_def writer_write_def insert_call_def erase_call_def
      split: option.splits if_splits)

lemma allocated_strand_run: "allocated s \<Longrightarrow> allocated (strand_run s)"
proof (cases "strand s")
  case Nil
  assume "allocated s"
  with Nil show ?thesis by (simp add: strand_run_def)
next
  case (Cons t ts)
  assume a: "allocated s"
  with Cons have "allocated (s\<lparr>strand := ts\<rparr>)"
    by (auto simp: allocated_def)
  moreover have "p < next_state (s\<lparr>strand := ts\<rparr>)" if "t = Register i n p b" for i n p b
    using a Cons that by (auto simp: allocated_def)
  ultimately have "allocated (run_task t (s\<lparr>strand := ts\<rparr>))"
    by (rule allocated_run_task)
  with Cons show ?thesis by (simp add: strand_run_def)
qed

lemma allocated_on_connect: "allocated s \<Longrightarrow> allocated (snd (on_connect p ec s))"
  by (auto simp: allocated_def on_connect_def set_state_def set_value_def do_read_def
      notify_all_def Let_def split: prod.splits option.splits)

lemma allocated_step: "allocated s \<Longrightarrow> allocated (snd (step e s))"
proof (cases e)
  case (Call idx func_name buffer)
  assume "allocated s"
  with Call show ?thesis
    by (auto simp: allocated_def new_promise_def post_def strand_post_def Let_def less_Suc_eq)
next
  case (Post_buffer buffer)
  assume "allocated s"
  with Post_buffer show ?thesis by (auto simp: allocated_def post_buffer_def strand_post_def)
next
  case Strand_run
  assume "allocated s"
  with Strand_run show ?thesis by (simp add: allocated_strand_run)
next
  case (Read_done ec rs)
  assume "allocated s"
  with Read_done show ?thesis by (simp add: allocated_on_read)
next
  case Connect
  assume "allocated s"
  with Connect show ?thesis by (auto simp: allocated_def do_connect_def Let_def less_Suc_eq)
next
  case (Connect_done p ec)
  assume "allocated s"
  with Connect_done show ?thesis by (simp add: allocated_on_connect)
qed

lemma allocated_run: "allocated s \<Longrightarrow> allocated (snd (run es s))"
proof (induction es arbitrary: s)
  case Nil
  then show ?case by simp
next
  case (Cons e es)
  show ?case
  proof (cases "step e s")
    case (Pair thrown s1)
    then have "allocated s1"
      using allocated_step [OF Cons.prems, of e] by simp
    with Pair Cons.IH [of s1] show ?thesis
      by (cases thrown) simp_all
  qed
qed

lemma allocated_echo_client: "allocated echo_client"
  unfolding echo_client_def connected_client_def
  by (intro allocated_run allocated_on_connect allocated_client)

subsection \<open>Dispatching a frame\<close>

lemma dispatch_pending:
  assumes "ongoing_calls s (get_id r) = Some (name, p)" and "rsp_states s p = Unset"
  shows "fst (dispatch r s) = None"
    and "rsp_states (snd (dispatch r s)) p =
      (case get_error r of
         None \<Rightarrow> Value (get_result r)
       | Some e \<Rightarrow> Exception (Rpc_error ''rpc::rpc_error during call'' name e))"
  using assms
  by (auto simp: dispatch_def index_call_def set_value_def set_exception_def strand_post_def
      Let_def split: option.splits)

text \<open>
  C1. When a frame is dispatched whose id has an entry with a completion that is not
  ready, the dispatch returns normally and the completion receives exactly one of the
  two outcomes: the frame's result when the frame has no error, and otherwise the error.
  A completion that is ready is never written again: whatever frame \<open>r'\<close> is dispatched
  (one with the same id among them) and whatever events \<open>evs\<close> follow, its content in the
  state left behind, by a normal return or by an escaping exception, is what it was.
\<close>

theorem at_most_once_resolution:
  "(ongoing_calls s (get_id r) = Some (name, p) \<and> rsp_states s p = Unset \<longrightarrow>
      fst (dispatch r s) = None \<and>
      rsp_states (snd (dispatch r s)) p =
        (case get_error r of
           None \<Rightarrow> Value (get_result r)
         | Some e \<Rightarrow> Exception (Rpc_error ''rpc::rpc_error during call'' name e))) \<and>
   (q < next_state s \<and> rsp_states s q \<noteq> Unset \<longrightarrow>
      rsp_states (snd (dispatch r' s)) q = rsp_states s q \<and>
      rsp_states (snd (run evs s)) q = rsp_states s q)"
  using dispatch_pending [of s r name p] resolved_after_dispatch [of q s r']
    resolved_after_run [of q s evs]
  by simp

text \<open>
  Witness for C1: the reply to the call \<open>echo\<close> delivers \<open>hi\<close>; a second frame for the
  same id, dispatched in the same batch or after the posted removal has run, leaves
  \<open>hi\<close> in place.
\<close>

theorem at_most_once_resolution_witness:
  "ongoing_calls echo_client (get_id echo_reply) = Some (''echo'', 1) \<and>
   rsp_states echo_client 1 = Unset \<and>
   fst (dispatch echo_reply echo_client) = None \<and>
   rsp_states (snd (dispatch echo_reply echo_client)) 1 = Value ''hi'' \<and>
   rsp_states (snd (dispatch echo_failure (snd (dispatch echo_reply echo_client)))) 1 = Value ''hi'' \<and>
   rsp_states (snd (run [Strand_run, Read_done no_error [echo_failure]]
       (snd (dispatch echo_reply echo_client)))) 1 = Value ''hi''"
proof -
  have e: "ongoing_calls echo_client (get_id echo_reply) = Some (''echo'', 1)"
    "rsp_states echo_client 1 = Unset"
    by (simp_all add: echo_client_fields echo_reply_def)
  have first: "fst (dispatch echo_reply echo_client) = None"
    "rsp_states (snd (dispatch echo_reply echo_client)) 1 = Value ''hi''"
    using at_most_once_resolution [of echo_client echo_reply "''echo''" 1 0 echo_reply "[]"] e
    by (simp_all add: echo_reply_def)
  have n: "1 < next_state (snd (dispatch echo_reply echo_client))"
    using keeps_resolved_dispatch [of echo_client echo_reply]
    by (simp add: keeps_resolved_def echo_client_fields)
  have second:
    "rsp_states (snd (dispatch echo_failure (snd (dispatch echo_reply echo_client)))) 1 = Value ''hi''"
    "rsp_states (snd (run [Strand_run, Read_done no_error [echo_failure]]
       (snd (dispatch echo_reply echo_client)))) 1 = Value ''hi''"
    using at_most_once_resolution [of "snd (dispatch echo_reply echo_client)" echo_reply "''echo''" 1
        1 echo_failure "[Strand_run, Read_done no_error [echo_failure]]"] first n
    by simp_all
  from e first second show ?thesis by simp
qed

text \<open>
  C2, as amended. When a frame is dispatched whose id has no entry in the table, the
  dispatch returns normally and changes no shared state that existed before; in a state
  where all promises in use are allocated, the completion of every call in the table is
  as it was. The lookup inserts an entry for the id, with the empty method name and a
  new promise; the outcome of the frame is stored in that new promise; and the removal
  of the id is posted to the strand. Once that removal has run, the table is the table
  from before the dispatch.
\<close>

theorem unmatched_frame_dispatch:
  "ongoing_calls s (get_id r) = None \<Longrightarrow>
     fst (dispatch r s) = None \<and>
     ongoing_calls (snd (dispatch r s)) = (ongoing_calls s)(get_id r \<mapsto> ([], next_state s)) \<and>
     rsp_states (snd (dispatch r s)) (next_state s) =
       (case get_error r of
          None \<Rightarrow> Value (get_result r)
        | Some e \<Rightarrow> Exception (Rpc_error ''rpc::rpc_error during call'' [] e)) \<and>
     (\<forall>q. q \<noteq> next_state s \<longrightarrow> rsp_states (snd (dispatch r s)) q = rsp_states s q) \<and>
     (allocated s \<longrightarrow>
        (\<forall>i c. ongoing_calls s i = Some c \<longrightarrow>
           rsp_states (snd (dispatch r s)) (snd c) = rsp_states s (snd c))) \<and>
     strand (snd (dispatch r s)) = strand s @ [Erase (get_id r)] \<and>
     ongoing_calls (run_task (Erase (get_id r)) (snd (dispatch r s))) = ongoing_calls s"
proof -
  assume h: "ongoing_calls s (get_id r) = None"
  have others: "\<forall>q. q \<noteq> next_state s \<longrightarrow> rsp_states (snd (dispatch r s)) q = rsp_states s q"
    using h
    by (auto simp: dispatch_def index_call_def set_value_def set_exception_def strand_post_def
        Let_def split: option.splits)
  have "rsp_states (snd (dispatch r s)) (snd c) = rsp_states s (snd c)"
    if "allocated s" and "ongoing_calls s i = Some c" for i c
  proof -
    from that have "snd c < next_state s" by (cases c) (auto simp: allocated_def)
    then have "snd c \<noteq> next_state s" by simp
    with others show ?thesis by blast
  qed
  moreover have "fst (dispatch r s) = None \<and>
     ongoing_calls (snd (dispatch r s)) = (ongoing_calls s)(get_id r \<mapsto> ([], next_state s)) \<and>
     rsp_states (snd (dispatch r s)) (next_state s) =
       (case get_error r of
          None \<Rightarrow> Value (get_result r)
        | Some e \<Rightarrow> Exception (Rpc_error ''rpc::rpc_error during call'' [] e)) \<and>
     strand (snd (dispatch r s)) = strand s @ [Erase (get_id r)] \<and>
     ongoing_calls (run_task (Erase (get_id r)) (snd (dispatch r s))) = ongoing_calls s"
    using h
    by (auto simp: dispatch_def index_call_def set_value_def set_exception_def strand_post_def
        erase_call_def Let_def split: option.splits)
  ultimately show ?thesis using others by blast
qed

text \<open>
  Witness for C2: a frame for id 7 arrives while only call 1 is pending. The completion
  of call 1 stays not ready, the entry for 7 appears with a promise at address 2, and
  the posted removal restores the table.
\<close>

theorem unmatched_frame_dispatch_witness:
  "ongoing_calls echo_client (get_id stray_reply) = None \<and>
   allocated echo_client \<and>
   ongoing_calls echo_client 1 = Some (''echo'', 1) \<and>
   fst (dispatch stray_reply echo_client) = None \<and>
   ongoing_calls (snd (dispatch stray_reply echo_client)) 7 = Some ([], 2) \<and>
   rsp_states (snd (dispatch stray_reply echo_client)) 2 = Value ''x'' \<and>
   rsp_states (snd (dispatch stray_reply echo_client)) 1 = Unset \<and>
   strand (snd (dispatch stray_reply echo_client)) = [Erase 7] \<and>
   ongoing_calls (run_task (Erase 7) (snd (dispatch stray_reply echo_client))) =
     ongoing_calls echo_client"
proof -
  have h: "ongoing_calls echo_client (get_id stray_reply) = None"
    by (simp add: echo_client_fields stray_reply_def)
  have c: "ongoing_calls echo_client 1 = Some (''echo'', 1)"
    by (simp add: echo_client_fields)
  note t = unmatched_frame_dispatch [OF h]
  from t allocated_echo_client c
  have "rsp_states (snd (dispatch stray_reply echo_client)) (snd (''echo'', 1::nat)) = 
      rsp_states echo_client (snd (''echo'', 1::nat))"
    by blast
  then have q: "rsp_states (snd (dispatch stray_reply echo_client)) 1 = Unset"
    by (simp add: echo_client_fields)
  have e: "ongoing_calls (snd (dispatch stray_reply echo_client)) 7 = Some ([], 2)"
    using t by (simp add: echo_client_fields stray_reply_def)
  from h t q e c allocated_echo_client show ?thesis
    by (simp add: echo_client_fields stray_reply_def)
qed

text \<open>
  Counterexample to C2 as stated: id 7 has no entry, and the dispatch of a frame for
  id 7 leaves a table that has one, so the table is not left unchanged by the dispatch.
\<close>

theorem unmatched_frame_counterexample:
  "ongoing_calls echo_client (get_id stray_reply) = None \<and>
   ongoing_calls (snd (dispatch stray_reply echo_client)) (get_id stray_reply) = Some ([], 2) \<and>
   ongoing_calls (snd (dispatch stray_reply echo_client)) \<noteq> ongoing_calls echo_client"
proof -
  have a: "ongoing_calls echo_client (get_id stray_reply) = None"
    by (simp add: echo_client_fields stray_reply_def)
  have b: "ongoing_calls (snd (dispatch stray_reply echo_client)) (get_id stray_reply) = Some ([], 2)"
    by (simp add: dispatch_def index_call_def set_value_def strand_post_def echo_client_fields
        stray_reply_def Let_def)
  from a b have "ongoing_calls (snd (dispatch stray_reply echo_client)) \<noteq> ongoing_calls echo_client"
    by (metis option.distinct(1))
  with a b show ?thesis by simp
qed

text \<open>
  C8. When a frame with an error payload \<open>e\<close> is dispatched and its id has an entry
  \<open>(name, p)\<close> whose completion is not ready, the dispatch returns normally and the
  completion holds the exception \<^verbatim>\<open>rpc_error\<close> made of the method name of the entry and
  \<open>e\<close>, not a value.
\<close>

theorem remote_error_delivery:
  "ongoing_calls s (get_id r) = Some (name, p) \<Longrightarrow> rsp_states s p = Unset \<Longrightarrow>
   get_error r = Some e \<Longrightarrow>
     fst (dispatch r s) = None \<and>
     rsp_states (snd (dispatch r s)) p =
       Exception (Rpc_error ''rpc::rpc_error during call'' name e)"
  using dispatch_pending [of s r name p] by simp

text \<open>
  Witness for C8: the call registered as \<open>echo\<close> under id 1 receives the error of the
  frame, tagged \<open>echo\<close>.
\<close>

theorem remote_error_delivery_witness:
  "ongoing_calls echo_client (get_id echo_failure) = Some (''echo'', 1) \<and>
   rsp_states echo_client 1 = Unset \<and>
   get_error echo_failure = Some ''no such function'' \<and>
   fst (dispatch echo_failure echo_client) = None \<and>
   rsp_states (snd (dispatch echo_failure echo_client)) 1 =
     Exception (Rpc_error ''rpc::rpc_error during call'' ''echo'' ''no such function'')"
  using remote_error_delivery [of echo_client echo_failure "''echo''" 1 "''no such function''"]
  by (simp add: echo_client_fields echo_failure_def)

text \<open>The name in an entry is the one given at registration.\<close>

lemma register_records_call:
  "ongoing_calls s idx = None \<Longrightarrow>
     ongoing_calls (run_task (Register idx func_name p buffer) s) idx = Some (func_name, p)"
  by (simp add: insert_call_def writer_write_def)

text \<open>
  C10. Registering a call under an id that is present leaves the table as it is: neither
  the method name nor the promise of the new call is stored, and the completions of the
  other calls are untouched. The promise, not stored, is destroyed, which makes its
  shared state ready with \<^verbatim>\<open>broken_promise\<close> if it was not ready; and no later event,
  the dispatch of any frames among them, changes it.
\<close>

theorem register_present_id:
  "ongoing_calls s idx = Some c \<Longrightarrow> p < next_state s \<Longrightarrow>
     ongoing_calls (run_task (Register idx func_name p buffer) s) = ongoing_calls s \<and>
     rsp_states (run_task (Register idx func_name p buffer) s) p =
       (if rsp_states s p = Unset then Exception (Future_error broken_promise)
        else rsp_states s p) \<and>
     (\<forall>q. q \<noteq> p \<longrightarrow> rsp_states (run_task (Register idx func_name p buffer) s) q = rsp_states s q) \<and>
     rsp_states (snd (run evs (run_task (Register idx func_name p buffer) s))) p =
       rsp_states (run_task (Register idx func_name p buffer) s) p"
proof -
  assume c: "ongoing_calls s idx = Some c" and p: "p < next_state s"
  let ?s = "run_task (Register idx func_name p buffer) s"
  have t: "ongoing_calls ?s = ongoing_calls s"
    using c by (simp add: insert_call_def writer_write_def)
  have v: "rsp_states ?s p =
      (if rsp_states s p = Unset then Exception (Future_error broken_promise) else rsp_states s p)"
    using c by (simp add: insert_call_def writer_write_def abandon_def)
  have o: "\<forall>q. q \<noteq> p \<longrightarrow> rsp_states ?s q = rsp_states s q"
    using c by (simp add: insert_call_def writer_write_def abandon_def)
  have n: "p < next_state ?s"
    using p c by (simp add: insert_call_def writer_write_def)
  have "rsp_states ?s p \<noteq> Unset"
    by (subst v) simp
  with n have "rsp_states (snd (run evs ?s)) p = rsp_states ?s p"
    by (rule resolved_after_run)
  with t v o show ?thesis by simp
qed

text \<open>
  Witness for C10: a second call posted under id 1 while \<open>echo\<close> is pending. The entry
  of \<open>echo\<close> stays, and the promise of the second call, at address 2, holds
  \<^verbatim>\<open>broken_promise\<close> before and after the reply for id 1 is dispatched.
\<close>

theorem register_present_id_witness:
  "ongoing_calls second_caller 1 = Some (''echo'', 1) \<and> 2 < next_state second_caller \<and>
   ongoing_calls (run_task (Register 1 ''other'' 2 ''request'') second_caller) 1 =
     Some (''echo'', 1) \<and>
   rsp_states (run_task (Register 1 ''other'' 2 ''request'') second_caller) 2 =
     Exception (Future_error broken_promise) \<and>
   rsp_states (snd (run [Read_done no_error [echo_reply]]
       (run_task (Register 1 ''other'' 2 ''request'') second_caller))) 2 =
     Exception (Future_error broken_promise)"
  using register_present_id [of second_caller 1 "(''echo'', 1)" 2 "''other''" "''request''"
      "[Read_done no_error [echo_reply]]"]
  by (simp add: second_caller_fields)

subsection \<open>The read loop\<close>

lemma reads_issued_dispatch: "reads_issued (snd (dispatch r s)) = reads_issued s"
  by (auto simp: dispatch_def index_call_def set_value_def set_exception_def strand_post_def
      Let_def split: option.splits prod.splits)

lemma reads_issued_dispatch_all: "reads_issued (snd (dispatch_all rs s)) = reads_issued s"
proof (induction rs arbitrary: s)
  case Nil
  show ?case by simp
next
  case (Cons r rs)
  show ?case
  proof (cases "dispatch r s")
    case (Pair thrown s1)
    then have "reads_issued s1 = reads_issued s"
      using reads_issued_dispatch [of r s] by simp
    with Pair Cons.IH [of s1] show ?thesis
      by (cases thrown) simp_all
  qed
qed

text \<open>
  What the branches of the read handler do: a read that failed is never followed by
  another read, end-of-file and connection-reset set the state to \<open>disconnected\<close>, any
  other error changes nothing; a read that succeeded is followed by the next read when
  the handler returns normally.
\<close>

lemma on_read_branches:
  "(fst (on_read no_error rs s) = None \<longrightarrow>
      reads_issued (snd (on_read no_error rs s)) = Suc (reads_issued s)) \<and>
   (ec \<noteq> no_error \<longrightarrow>
      fst (on_read ec rs s) = None \<and>
      reads_issued (snd (on_read ec rs s)) = reads_issued s \<and>
      snd (on_read ec rs s) =
        (if ec = eof \<or> ec = connection_reset then set_state disconnected s else s)) \<and>
   state (set_state disconnected s) = disconnected"
  using reads_issued_dispatch_all [of rs s]
  by (auto simp: on_read_def do_read_def set_state_def Let_def split: prod.splits option.splits)

text \<open>
  A frame whose id has an entry with a ready completion: both \<^verbatim>\<open>set_value\<close> (or the
  \<^verbatim>\<open>throw\<close> of \<^verbatim>\<open>rpc_error\<close>) and the \<^verbatim>\<open>set_exception\<close> of the \<^verbatim>\<open>catch\<close> block
  fail, the exception leaves the loop body, and nothing has changed. Every dispatch that
  returns normally leaves such an entry behind, so the same frame twice in a row in one
  chunk always ends the handler with that exception, before the next read is issued.
\<close>

lemma dispatch_ready_entry:
  "ongoing_calls s (get_id r) = Some (name, p) \<Longrightarrow> rsp_states s p \<noteq> Unset \<Longrightarrow>
     dispatch r s = (Some (Future_error promise_already_satisfied), s)"
  by (auto simp: dispatch_def index_call_def set_value_def set_exception_def Let_def
      split: option.splits)

lemma dispatch_leaves_ready_entry:
  "fst (dispatch r s) = None \<Longrightarrow>
     \<exists>name p. ongoing_calls (snd (dispatch r s)) (get_id r) = Some (name, p) \<and>
       rsp_states (snd (dispatch r s)) p \<noteq> Unset"
  by (auto simp: dispatch_def index_call_def set_value_def set_exception_def strand_post_def
      Let_def split: option.splits prod.splits if_splits)

lemma dispatch_twice:
  "fst (dispatch_all (r # r # rs) s) = Some (Future_error promise_already_satisfied)"
proof (cases "dispatch r s")
  case (Pair thrown s1)
  show ?thesis
  proof (cases thrown)
    case None
    with Pair have "fst (dispatch r s) = None" by simp
    from dispatch_leaves_ready_entry [OF this] Pair
    obtain name p where "ongoing_calls s1 (get_id r) = Some (name, p)" "rsp_states s1 p \<noteq> Unset"
      by auto
    then have "dispatch r s1 = (Some (Future_error promise_already_satisfied), s1)"
      by (rule dispatch_ready_entry)
    with Pair None show ?thesis by simp
  next
    case (Some x)
    have "x = Future_error promise_already_satisfied"
      using Pair Some
      by (auto simp: dispatch_def index_call_def set_value_def set_exception_def strand_post_def
          Let_def split: option.splits prod.splits if_splits)
    with Pair Some show ?thesis by simp
  qed
qed

lemma on_read_duplicate:
  "fst (on_read no_error (r # r # rs) s) = Some (Future_error promise_already_satisfied) \<and>
   reads_issued (snd (on_read no_error (r # r # rs) s)) = reads_issued s"
  using dispatch_twice [of r rs s] reads_issued_dispatch_all [of "r # r # rs" s]
  by (auto simp: on_read_def split: prod.splits option.splits)

text \<open>
  C5 at the input where the code departs from it. The read completed without error and
  carried the reply to call 1 twice. The second \<^verbatim>\<open>set_value\<close> throws, the
  \<^verbatim>\<open>set_exception\<close> of the \<^verbatim>\<open>catch\<close> block throws again, that exception leaves the
  handler, and \<^verbatim>\<open>do_read\<close> is not reached: no read is issued.
\<close>

theorem duplicate_frame_stops_read_loop:
  "fst (on_read no_error [echo_reply, echo_reply] echo_client) =
     Some (Future_error promise_already_satisfied) \<and>
   reads_issued (snd (on_read no_error [echo_reply, echo_reply] echo_client)) =
     reads_issued echo_client"
  by (simp add: on_read_def dispatch_def index_call_def set_value_def set_exception_def
      strand_post_def echo_client_fields echo_reply_def Let_def)

subsection \<open>Connecting and waiting\<close>

text \<open>
  C4. The completion handler of the connection attempt, run on a connection promise
  that is not ready: on success the state becomes \<open>connected\<close>, the promise holds
  \<open>connected\<close> and one read is issued; on failure the state becomes \<open>disconnected\<close>, the
  promise holds \<open>disconnected\<close> and no read is issued.
\<close>

theorem connect_completion:
  "conn_states s p = Unset \<Longrightarrow>
     fst (on_connect p no_error s) = None \<and>
     state (snd (on_connect p no_error s)) = connected \<and>
     conn_states (snd (on_connect p no_error s)) p = Value connected \<and>
     reads_issued (snd (on_connect p no_error s)) = Suc (reads_issued s) \<and>
     (ec \<noteq> no_error \<longrightarrow>
        fst (on_connect p ec s) = None \<and>
        state (snd (on_connect p ec s)) = disconnected \<and>
        conn_states (snd (on_connect p ec s)) p = Value disconnected \<and>
        reads_issued (snd (on_connect p ec s)) = reads_issued s)"
  by (simp add: on_connect_def set_state_def set_value_def notify_all_def do_read_def Let_def)

text \<open>
  Witness for C4: the first connection attempt of a new client, whose promise is at
  address 0, completing with success and with an error.
\<close>

theorem connect_completion_witness:
  "conn_states (client ''127.0.0.1'' 8080) 0 = Unset \<and>
   state (snd (on_connect 0 no_error (client ''127.0.0.1'' 8080))) = connected \<and>
   conn_states (snd (on_connect 0 no_error (client ''127.0.0.1'' 8080))) 0 = Value connected \<and>
   reads_issued (snd (on_connect 0 no_error (client ''127.0.0.1'' 8080))) = 1 \<and>
   other_error 111 \<noteq> no_error \<and>
   state (snd (on_connect 0 (other_error 111) (client ''127.0.0.1'' 8080))) = disconnected \<and>
   conn_states (snd (on_connect 0 (other_error 111) (client ''127.0.0.1'' 8080))) 0 =
     Value disconnected \<and>
   reads_issued (snd (on_connect 0 (other_error 111) (client ''127.0.0.1'' 8080))) = 0"
  using connect_completion [of "client ''127.0.0.1'' 8080" 0 "other_error 111"]
  by (simp add: client_fields)

text \<open>
  C6. With the state \<open>connected\<close>, \<^verbatim>\<open>wait_conn\<close> returns without waiting on the
  condition variable and leaves the engine as it is, whatever the timeout setting.
\<close>

theorem wait_conn_connected:
  "state s = connected \<Longrightarrow> wait_conn tid s = (None, s)"
  by (simp add: wait_conn_def)

text \<open>Witness for C6: a connected client, without a timeout and with one of 1500 ms.\<close>

theorem wait_conn_connected_witness:
  "state connected_client = connected \<and>
   wait_conn 5 connected_client = (None, connected_client) \<and>
   state (set_timeout 1500 connected_client) = connected \<and>
   wait_conn 5 (set_timeout 1500 connected_client) = (None, set_timeout 1500 connected_client)"
  using wait_conn_connected [of connected_client 5]
    wait_conn_connected [of "set_timeout 1500 connected_client" 5]
  by (simp add: connected_client_fields set_timeout_def)

text \<open>
  C7. With a timeout \<open>T\<close> configured and a state other than \<open>connected\<close>, \<^verbatim>\<open>wait_conn\<close>
  waits on the condition variable for \<open>T\<close> milliseconds. When that wait ends by timeout,
  \<^verbatim>\<open>rpc::timeout\<close> is thrown, and its message contains \<open>T\<close>, the address and the port;
  when the wait ends because of a notification, the function returns normally.
\<close>

theorem wait_conn_timeout:
  "state s \<noteq> connected \<Longrightarrow> timeout s = Some T \<Longrightarrow>
     wait_conn tid s =
       (Some (Wait_for T), s\<lparr>conn_finished := conn_finished s @ [(tid, Wait_for T)]\<rparr>) \<and>
     fst (wait_conn_wake tid (Wait_for T) cv_timeout (snd (wait_conn tid s))) =
       Some (Rpc_timeout (''Timeout of '' @ int_to_decimal (sint T) @ ''ms while connecting to ''
          @ addr s @ '':'' @ to_decimal (unat (port s)))) \<and>
     fst (wait_conn_wake tid (Wait_for T) cv_no_timeout (snd (wait_conn tid s))) = None"
  by (simp add: wait_conn_def wait_conn_wake_def get_timeout_def timeout_message_def Let_def)

lemma decimal_1500: "int_to_decimal 1500 = ''1500''"
  by (simp add: int_to_decimal_def to_decimal.simps)

lemma decimal_8080: "to_decimal 8080 = ''8080''"
  by (simp add: to_decimal.simps)

text \<open>
  Witness for C7: a client for 127.0.0.1:8080, not yet connected, with a timeout of
  1500 ms.
\<close>

theorem wait_conn_timeout_witness:
  "state (set_timeout 1500 (client ''127.0.0.1'' 8080)) \<noteq> connected \<and>
   timeout (set_timeout 1500 (client ''127.0.0.1'' 8080)) = Some 1500 \<and>
   fst (wait_conn 5 (set_timeout 1500 (client ''127.0.0.1'' 8080))) = Some (Wait_for 1500) \<and>
   fst (wait_conn_wake 5 (Wait_for 1500) cv_timeout
        (snd (wait_conn 5 (set_timeout 1500 (client ''127.0.0.1'' 8080))))) =
     Some (Rpc_timeout ''Timeout of 1500ms while connecting to 127.0.0.1:8080'')"
proof -
  let ?s = "set_timeout 1500 (client ''127.0.0.1'' 8080)"
  have a: "state ?s \<noteq> connected" and b: "timeout ?s = Some 1500"
    and c: "addr ?s = ''127.0.0.1''" and d: "port ?s = 8080"
    by (simp_all add: set_timeout_def client_fields)
  note t = wait_conn_timeout [OF a b, of 5]
  from t have w: "fst (wait_conn 5 ?s) = Some (Wait_for 1500)" by simp
  from t have "fst (wait_conn_wake 5 (Wait_for 1500) cv_timeout (snd (wait_conn 5 ?s))) =
      Some (Rpc_timeout (''Timeout of '' @ int_to_decimal (sint (1500 :: 64 word))
        @ ''ms while connecting to '' @ addr ?s @ '':'' @ to_decimal (unat (port ?s))))"
    by blast
  then have m: "fst (wait_conn_wake 5 (Wait_for 1500) cv_timeout (snd (wait_conn 5 ?s))) =
      Some (Rpc_timeout ''Timeout of 1500ms while connecting to 127.0.0.1:8080'')"
    by (simp add: c d decimal_1500 decimal_8080)
  from a b w m show ?thesis by simp
qed

text \<open>Which handlers touch the condition variable.\<close>

lemma conn_finished_dispatch: "conn_finished (snd (dispatch r s)) = conn_finished s"
  by (auto simp: dispatch_def index_call_def set_value_def set_exception_def strand_post_def
      Let_def split: option.splits prod.splits)

lemma conn_finished_dispatch_all: "conn_finished (snd (dispatch_all rs s)) = conn_finished s"
proof (induction rs arbitrary: s)
  case Nil
  show ?case by simp
next
  case (Cons r rs)
  show ?case
  proof (cases "dispatch r s")
    case (Pair thrown s1)
    then have "conn_finished s1 = conn_finished s"
      using conn_finished_dispatch [of r s] by simp
    with Pair Cons.IH [of s1] show ?thesis
      by (cases thrown) simp_all
  qed
qed

lemma conn_finished_on_read: "conn_finished (snd (on_read ec rs s)) = conn_finished s"
  using conn_finished_dispatch_all [of rs s]
  by (auto simp: on_read_def do_read_def set_state_def Let_def split: prod.splits option.splits)

lemma conn_finished_run_task: "conn_finished (run_task t s) = conn_finished s"
  by (cases t) (simp_all add: writer_write_def insert_call_def erase_call_def split: option.splits)

lemma conn_finished_strand_run: "conn_finished (strand_run s) = conn_finished s"
  by (simp add: strand_run_def conn_finished_run_task split: list.splits)

lemma conn_finished_step:
  "(\<And>p. e \<noteq> Connect_done p no_error) \<Longrightarrow> conn_finished (snd (step e s)) = conn_finished s"
proof (cases e)
  case (Call idx func_name buffer)
  then show ?thesis by (simp add: new_promise_def post_def strand_post_def Let_def)
next
  case (Post_buffer buffer)
  then show ?thesis by (simp add: post_buffer_def strand_post_def)
next
  case Strand_run
  then show ?thesis by (simp add: conn_finished_strand_run)
next
  case (Read_done ec rs)
  then show ?thesis by (simp add: conn_finished_on_read)
next
  case Connect
  then show ?thesis by (simp add: do_connect_def Let_def)
next
  case (Connect_done p ec)
  assume "\<And>p. e \<noteq> Connect_done p no_error"
  with Connect_done have "ec \<noteq> no_error" by blast
  with Connect_done show ?thesis
    by (simp add: on_connect_def set_state_def set_value_def Let_def split: prod.splits)
qed

text \<open>
  C9. A connection attempt that fails stores \<open>disconnected\<close> in the connection promise
  and leaves the threads blocked on the condition variable where they are, while one
  that succeeds wakes them all. So a thread that has entered \<^verbatim>\<open>wait_conn\<close> with no
  timeout configured and a state other than \<open>connected\<close>, and is blocked in the wait
  without time limit, is still blocked after the failure. No event of the engine other
  than a successful connection attempt touches the condition variable.
\<close>

theorem failed_connect_does_not_notify:
  "ec \<noteq> no_error \<Longrightarrow> conn_states s p = Unset \<Longrightarrow>
     conn_states (snd (on_connect p ec s)) p = Value disconnected \<and>
     conn_finished (snd (on_connect p ec s)) = conn_finished s \<and>
     conn_finished (snd (on_connect p no_error s)) = [] \<and>
     (state s \<noteq> connected \<and> timeout s = None \<longrightarrow>
        fst (wait_conn tid s) = Some Wait \<and>
        (tid, Wait) \<in> set (conn_finished (snd (on_connect p ec (snd (wait_conn tid s))))) \<and>
        (tid, Wait) \<notin> set (conn_finished (snd (on_connect p no_error (snd (wait_conn tid s)))))) \<and>
     ((\<forall>p'. e \<noteq> Connect_done p' no_error) \<longrightarrow> conn_finished (snd (step e s)) = conn_finished s)"
  using conn_finished_step [of e s]
  by (simp add: on_connect_def set_state_def set_value_def notify_all_def do_read_def
      wait_conn_def Let_def)

text \<open>
  Witness for C9: thread 5 waits on a new client without timeout; the failure of the
  connection attempt leaves it blocked, a success would have woken it.
\<close>

theorem failed_connect_does_not_notify_witness:
  "other_error 111 \<noteq> no_error \<and> conn_states (client ''127.0.0.1'' 8080) 0 = Unset \<and>
   state (client ''127.0.0.1'' 8080) \<noteq> connected \<and> timeout (client ''127.0.0.1'' 8080) = None \<and>
   fst (wait_conn 5 (client ''127.0.0.1'' 8080)) = Some Wait \<and>
   conn_states (snd (on_connect 0 (other_error 111) (snd (wait_conn 5 (client ''127.0.0.1'' 8080))))) 0
     = Value disconnected \<and>
   conn_finished (snd (on_connect 0 (other_error 111) (snd (wait_conn 5 (client ''127.0.0.1'' 8080)))))
     = [(5, Wait)] \<and>
   conn_finished (snd (on_connect 0 no_error (snd (wait_conn 5 (client ''127.0.0.1'' 8080))))) = []"
proof -
  let ?c = "client ''127.0.0.1'' 8080"
  have a: "other_error 111 \<noteq> no_error" by simp
  have c: "state ?c \<noteq> connected" "timeout ?c = None" "conn_states ?c 0 = Unset"
    by (simp_all add: client_fields)
  have w: "snd (wait_conn 5 ?c) = ?c\<lparr>conn_finished := [(5, Wait)]\<rparr>" "fst (wait_conn 5 ?c) = Some Wait"
    by (simp_all add: wait_conn_def client_fields)
  have b: "conn_states (snd (wait_conn 5 ?c)) 0 = Unset"
    by (simp add: w c)
  note t = failed_connect_does_not_notify [OF a b, of 5 Strand_run]
  from t a c w show ?thesis by simp
qed

end
